theory Spec2Isabelle
  imports Complex_Main "HOL-Library.AList"
begin

section \<open>Request wrappers of trytond (trytond/protocols/wrappers.py)\<close>

text \<open>
  A shallow embedding of the request-handling layer: the session credential parser
  \<open>parse_authorization_header\<close>, and the decorators \<open>with_pool\<close>,
  \<open>with_transaction\<close> and \<open>user_application\<close>.

  Python exceptions are values of the datatype \<open>exc\<close>; a call that may raise has a
  result of type \<open>exc + 'a\<close>, with \<open>Inl\<close> the exception raised and \<open>Inr\<close> the value
  returned. What a decorator does to its collaborators (the transaction, the pool, the
  worker, the clock) is recorded, in order, as a list of events. The collaborators
  themselves (\<open>Transaction\<close>, \<open>Pool\<close>, \<open>run_task\<close>, \<open>time.sleep\<close>) are defined
  outside \<open>wrappers.py\<close>; their calls are events and are taken to return normally. The wrapped handler
  is part of the input: it may return or raise anything.
\<close>

subsection \<open>Exceptions\<close>

text \<open>
  The exception classes the wrappers tell apart. \<open>HTTPException code description\<close> is
  what werkzeug's \<open>abort(code, description)\<close> raises. \<open>BinasciiError\<close> is
  \<open>binascii.Error\<close>, a subclass of \<open>ValueError\<close>. \<open>OtherException\<close> stands for any
  other class deriving from \<open>Exception\<close>, \<open>NonException\<close> for the classes that derive
  from \<open>BaseException\<close> only (\<open>KeyboardInterrupt\<close>, \<open>SystemExit\<close>,
  \<open>GeneratorExit\<close>).
\<close>

datatype exc =
    HTTPException nat "exc option"
  | UserError string
  | UserWarning string
  | RateLimitException
  | DatabaseOperationalError string
  | ValueError
  | BinasciiError
  | KeyError string
  | OtherException string
  | NonException string

definition BAD_REQUEST :: nat where "BAD_REQUEST = 400"
definition UNAUTHORIZED :: nat where "UNAUTHORIZED = 401"
definition FORBIDDEN :: nat where "FORBIDDEN = 403"
definition INTERNAL_SERVER_ERROR :: nat where "INTERNAL_SERVER_ERROR = 500"

text \<open>\<open>abort(code)\<close> and \<open>abort(code, e)\<close> always raise.\<close>

definition abort :: "nat \<Rightarrow> exc option \<Rightarrow> exc + 'a" where
  "abort code description = Inl (HTTPException code description)"

text \<open>The \<open>isinstance\<close> tests made by the \<open>except\<close> clauses.\<close>

fun is_HTTPException :: "exc \<Rightarrow> bool" where
  "is_HTTPException (HTTPException code description) = True"
| "is_HTTPException e = False"

fun is_UserError_or_UserWarning :: "exc \<Rightarrow> bool" where
  "is_UserError_or_UserWarning (UserError m) = True"
| "is_UserError_or_UserWarning (UserWarning m) = True"
| "is_UserError_or_UserWarning e = False"

fun is_DatabaseOperationalError :: "exc \<Rightarrow> bool" where
  "is_DatabaseOperationalError (DatabaseOperationalError m) = True"
| "is_DatabaseOperationalError e = False"

fun is_ValueError :: "exc \<Rightarrow> bool" where
  "is_ValueError ValueError = True"
| "is_ValueError BinasciiError = True"
| "is_ValueError e = False"

fun is_Exception :: "exc \<Rightarrow> bool" where
  "is_Exception (NonException n) = False"
| "is_Exception e = True"

subsection \<open>Requests, pools and events\<close>

record request_context =
  remote_addr :: string
  http_host :: "string option"
  scheme :: string
  is_secure :: bool

datatype ctx_value = CtxRequest request_context | CtxValue string

type_synonym ctx = "(string \<times> ctx_value) list"

text \<open>
  The attributes of \<open>Request\<close> the wrappers read. \<open>http_method\<close> is
  \<open>request.method\<close>, \<open>headers\<close> is the header mapping,
  \<open>rpc_method\<close> the property of that name (\<open>None\<close> in the base class), \<open>user_id\<close>
  the outcome of reading the cached property \<open>user_id\<close>, which returns a user id or
  \<open>None\<close>, or aborts.
\<close>

record request =
  http_method :: string
  headers :: "(string \<times> string) list"
  rpc_method :: "string option"
  user_id :: "exc + int option"
  req_context :: request_context

record pool =
  database_name :: string

type_synonym task_id = int

datatype event =
    Sleep real
  | Start string "int option" bool ctx
  | PoolInit string
  | Call
  | Rollback
  | Commit
  | Exit bool
  | RunTask string task_id
  | PoolGet string
  | CheckApplication string string
  | SetUser int
  | CheckAccess
  | Restore
  | LogDebug
  | LogError

text \<open>
  \<open>Sleep d\<close> is \<open>time.sleep(d)\<close>; \<open>Start db user readonly context\<close> is
  \<open>Transaction().start(db, user, readonly=readonly, context=context)\<close> entering the
  \<open>with\<close> block; \<open>Call\<close> is one invocation of the wrapped handler; \<open>Rollback\<close> and
  \<open>Commit\<close> are the calls of \<open>transaction.rollback()\<close> and
  \<open>transaction.commit()\<close> written in the wrapper; \<open>Exit raised\<close> is the end of the
  \<open>with\<close> block, \<open>raised\<close> telling whether an exception leaves it;
  \<open>RunTask db task\<close> is \<open>run_task(pool, task)\<close>; \<open>PoolInit db\<close> is
  \<open>pool.init()\<close>; \<open>PoolGet name\<close> is \<open>pool.get(name)\<close>;
  \<open>CheckApplication key name\<close> is \<open>UserApplication.check(key, name)\<close>;
  \<open>SetUser id\<close> and \<open>CheckAccess\<close> enter the context managers
  \<open>transaction.set_user(id)\<close> and \<open>check_access()\<close>, \<open>Restore\<close> leaves both;
  \<open>LogDebug\<close> and \<open>LogError\<close> are the calls of \<open>logger.debug\<close> and
  \<open>logger.error\<close>.
\<close>

subsection \<open>with_transaction\<close>

text \<open>\<open>range(start, stop, -1)\<close>.\<close>

function range_down :: "int \<Rightarrow> int \<Rightarrow> int list" where
  "range_down start stop = (if stop < start then start # range_down (start - 1) stop else [])"
  by pat_completeness auto
termination
  by (relation "measure (\<lambda>(start, stop). nat (start - stop))") auto

declare range_down.simps [simp del]

text \<open>
  \<open>while transaction.tasks: task_id = transaction.tasks.pop(); run_task(pool, task_id)\<close>:
  \<open>pop()\<close> takes the last element of the list.
\<close>

function drain_tasks :: "string \<Rightarrow> task_id list \<Rightarrow> event list" where
  "drain_tasks db tasks =
     (if tasks \<noteq> [] then RunTask db (last tasks) # drain_tasks db (butlast tasks) else [])"
  by pat_completeness auto
termination
  by (relation "measure (\<lambda>(db, tasks). length tasks)") auto

declare drain_tasks.simps [simp del]

text \<open>
  The wrapped handler: \<open>func k\<close> is the outcome of its invocation number \<open>k\<close> (from 0)
  within one request. It raises, or returns its result together with the task ids it
  appended to \<open>transaction.tasks\<close>, in the order of the appends. The transaction
  handle is new at each \<open>start\<close>, with no task.
\<close>

type_synonym 'r handler = "nat \<Rightarrow> exc + ('r \<times> task_id list)"

text \<open>
  The first statement of the loop body:
  \<open>if count != retry: time.sleep(0.02 * (retry - count))\<close>.
\<close>

definition backoff :: "int \<Rightarrow> int \<Rightarrow> event list" where
  "backoff retry count =
     (if count \<noteq> retry then [Sleep (0.02 * real_of_int (retry - count))] else [])"

text \<open>
  The \<open>for count in range(retry, -1, -1)\<close> loop, over the counters still to visit;
  \<open>k\<close> is the number of invocations of the handler made so far. A loop that ends
  without \<open>return\<close> makes the wrapper return \<open>None\<close>.
\<close>

fun attempts :: "int \<Rightarrow> string \<Rightarrow> int option \<Rightarrow> bool \<Rightarrow> ctx \<Rightarrow> 'r handler \<Rightarrow> nat \<Rightarrow>
    int list \<Rightarrow> event list \<times> (exc + 'r option)" where
  "attempts retry db user' readonly' context' func k [] = ([], Inr None)"
| "attempts retry db user' readonly' context' func k (count # rest) =
     (let enter = backoff retry count @ [Start db user' readonly' context', Call]
      in case func k of
           Inl e \<Rightarrow>
             if is_DatabaseOperationalError e then
               if count \<noteq> 0 \<and> \<not> readonly' then
                 (let (evs, out) = attempts retry db user' readonly' context' func (Suc k) rest
                  in (enter @ [Rollback, Exit False] @ evs, out))
               else (enter @ [Exit True], Inl e)
             else (enter @ [Exit True], Inl e)
         | Inr (result, tasks) \<Rightarrow>
             (enter @ [Commit, Exit False] @ drain_tasks db tasks, Inr (Some result)))"

datatype user_arg = UserRequest | UserValue int

definition mutating_methods :: "string set" where
  "mutating_methods = {''POST'', ''PUT'', ''DELETE'', ''PATCH''}"

definition resolve_readonly :: "bool option \<Rightarrow> request \<Rightarrow> bool" where
  "resolve_readonly readonly request =
     (case readonly of
        None \<Rightarrow> (if http_method request \<in> mutating_methods then False else True)
      | Some r \<Rightarrow> r)"

definition resolve_context :: "ctx option \<Rightarrow> request \<Rightarrow> ctx" where
  "resolve_context context0 request =
     AList.update ''_request'' (CtxRequest (req_context request))
       (case context0 of None \<Rightarrow> [] | Some c \<Rightarrow> c)"

definition resolve_user :: "user_arg \<Rightarrow> request \<Rightarrow> exc + int option" where
  "resolve_user user request =
     (case user of UserRequest \<Rightarrow> user_id request | UserValue u \<Rightarrow> Inr (Some u))"

text \<open>
  \<open>with_transaction(readonly, user, context)(func)(request, pool)\<close>, with \<open>retry\<close>
  the value of \<open>config.getint('database', 'retry')\<close>.
\<close>

definition with_transaction :: "bool option \<Rightarrow> user_arg \<Rightarrow> ctx option \<Rightarrow> int \<Rightarrow> 'r handler \<Rightarrow>
    request \<Rightarrow> pool \<Rightarrow> event list \<times> (exc + 'r option)" where
  "with_transaction readonly user context0 retry func request pool =
     (let readonly' = resolve_readonly readonly request;
          context' = resolve_context context0 request
      in case resolve_user user request of
           Inl e \<Rightarrow> ([], Inl e)
         | Inr user' \<Rightarrow>
             attempts retry (database_name pool) user' readonly' context' func 0
               (range_down retry (- 1)))"

text \<open>Counting the invocations of the handler in a trace.\<close>

definition calls :: "event list \<Rightarrow> nat" where
  "calls tr = length (filter (\<lambda>e. e = Call) tr)"

fun is_RunTask :: "event \<Rightarrow> bool" where
  "is_RunTask (RunTask db t) = True"
| "is_RunTask e = False"

fun is_Sleep :: "event \<Rightarrow> bool" where
  "is_Sleep (Sleep d) = True"
| "is_Sleep e = False"

fun is_Start :: "event \<Rightarrow> bool" where
  "is_Start (Start db u r c) = True"
| "is_Start e = False"

subsection \<open>Byte strings and text\<close>

text \<open>
  A \<open>string\<close> is a list of 8-bit characters: it stands for a Python \<open>bytes\<close> object
  and for a \<open>str\<close> of Latin-1 code points (what a WSGI header value is), so that
  \<open>encode('latin1')\<close> and \<open>decode('latin1')\<close> are the identity.
\<close>

definition code :: "char \<Rightarrow> nat" where
  "code c = of_char c"

text \<open>Whitespace of \<open>bytes\<close> methods: tab, line feed, vertical tab, form feed,
  carriage return, space.\<close>

definition bytes_isspace :: "char \<Rightarrow> bool" where
  "bytes_isspace c = ((9 \<le> code c \<and> code c \<le> 13) \<or> code c = 32)"

text \<open>Whitespace of \<open>str\<close> methods, among the Latin-1 code points.\<close>

definition str_isspace :: "char \<Rightarrow> bool" where
  "str_isspace c = ((9 \<le> code c \<and> code c \<le> 13) \<or> (28 \<le> code c \<and> code c \<le> 32)
     \<or> code c = 133 \<or> code c = 160)"

text \<open>\<open>bytes.lower()\<close> changes the ASCII letters only.\<close>

definition bytes_lower :: "string \<Rightarrow> string" where
  "bytes_lower s =
     map (\<lambda>c. if 65 \<le> code c \<and> code c \<le> 90 then char_of (code c + 32) else c) s"

text \<open>\<open>str.lower()\<close> on Latin-1 code points: the ASCII letters, and the letters from
  U+00C0 to U+00DE except the multiplication sign U+00D7.\<close>

definition str_lower :: "string \<Rightarrow> string" where
  "str_lower s =
     map (\<lambda>c. if (65 \<le> code c \<and> code c \<le> 90) \<or> (192 \<le> code c \<and> code c \<le> 222 \<and> code c \<noteq> 215)
               then char_of (code c + 32) else c) s"

text \<open>
  \<open>s.split(None, maxsplit)\<close>: runs of whitespace separate the words; after
  \<open>maxsplit\<close> words the remainder, without its leading whitespace, is the last item.
\<close>

fun split_whitespace :: "(char \<Rightarrow> bool) \<Rightarrow> nat \<Rightarrow> string \<Rightarrow> string list" where
  "split_whitespace isspace 0 s =
     (let s1 = dropWhile isspace s in if s1 = [] then [] else [s1])"
| "split_whitespace isspace (Suc maxsplit) s =
     (let s1 = dropWhile isspace s
      in if s1 = [] then []
         else takeWhile (\<lambda>c. \<not> isspace c) s1
              # split_whitespace isspace maxsplit (dropWhile (\<lambda>c. \<not> isspace c) s1))"

text \<open>\<open>s.split(sep, maxsplit)\<close> for a separator of one byte.\<close>

fun split_sep :: "char \<Rightarrow> nat \<Rightarrow> string \<Rightarrow> string list" where
  "split_sep sep 0 s = [s]"
| "split_sep sep (Suc maxsplit) s =
     (if sep \<in> set s
      then takeWhile (\<lambda>c. c \<noteq> sep) s # split_sep sep maxsplit (tl (dropWhile (\<lambda>c. c \<noteq> sep) s))
      else [s])"

text \<open>Unpacking a list into two or three names raises \<open>ValueError\<close> unless the
  length fits.\<close>

definition unpack2 :: "'a list \<Rightarrow> exc + 'a \<times> 'a" where
  "unpack2 xs = (case xs of [a, b] \<Rightarrow> Inr (a, b) | _ \<Rightarrow> Inl ValueError)"

definition unpack3 :: "'a list \<Rightarrow> exc + 'a \<times> 'a \<times> 'a" where
  "unpack3 xs = (case xs of [a, b, c] \<Rightarrow> Inr (a, b, c) | _ \<Rightarrow> Inl ValueError)"

subsection \<open>base64.b64decode and int\<close>

text \<open>
  \<open>base64.b64decode(s)\<close> is \<open>binascii.a2b_base64(s)\<close> without strict mode, as
  CPython 3 computes it: a byte outside the alphabet is skipped, padding that completes
  a quad ends the input, and an incomplete quad at the end raises \<open>binascii.Error\<close>.
  \<open>quad_pos\<close>, \<open>leftchar\<close> and \<open>pads\<close> are the variables of that loop.
\<close>

definition b64_alphabet :: string where
  "b64_alphabet = ''ABCDEFGHIJKLMNOPQRSTUVWXYZabcdefghijklmnopqrstuvwxyz0123456789+/''"

fun index_of :: "'a \<Rightarrow> 'a list \<Rightarrow> nat option" where
  "index_of x [] = None"
| "index_of x (y # ys) = (if x = y then Some 0 else map_option Suc (index_of x ys))"

definition b64_value :: "char \<Rightarrow> nat option" where
  "b64_value c = index_of c b64_alphabet"

definition emit :: "nat \<Rightarrow> exc + string \<Rightarrow> exc + string" where
  "emit b r = (case r of Inl e \<Rightarrow> Inl e | Inr bs \<Rightarrow> Inr (char_of b # bs))"

fun a2b_base64 :: "nat \<Rightarrow> nat \<Rightarrow> nat \<Rightarrow> string \<Rightarrow> exc + string" where
  "a2b_base64 quad_pos leftchar pads [] =
     (if quad_pos \<noteq> 0 then Inl BinasciiError else Inr [])"
| "a2b_base64 quad_pos leftchar pads (c # cs) =
     (if c = CHR ''='' then
        (if 2 \<le> quad_pos \<and> 4 \<le> quad_pos + (pads + 1) then Inr []
         else a2b_base64 quad_pos leftchar (if 2 \<le> quad_pos then pads + 1 else pads) cs)
      else
        (case b64_value c of
           None \<Rightarrow> a2b_base64 quad_pos leftchar pads cs
         | Some v \<Rightarrow>
             if quad_pos = 0 then a2b_base64 1 v 0 cs
             else if quad_pos = 1 then
               emit (leftchar * 4 + v div 16) (a2b_base64 2 (v mod 16) 0 cs)
             else if quad_pos = 2 then
               emit (leftchar * 16 + v div 4) (a2b_base64 3 (v mod 4) 0 cs)
             else emit (leftchar * 64 + v) (a2b_base64 0 0 0 cs)))"

definition b64decode :: "string \<Rightarrow> exc + string" where
  "b64decode s = a2b_base64 0 0 0 s"

text \<open>
  \<open>int(b)\<close> for a bytes object, in base 10: whitespace around, an optional sign, then
  digits, where single underscores may stand between digits; anything else raises
  \<open>ValueError\<close>.
\<close>

definition is_digit :: "char \<Rightarrow> bool" where
  "is_digit c = (48 \<le> code c \<and> code c \<le> 57)"

fun scan_digits :: "int \<Rightarrow> bool \<Rightarrow> string \<Rightarrow> (int \<times> string) option" where
  "scan_digits acc after_underscore [] = (if after_underscore then None else Some (acc, []))"
| "scan_digits acc after_underscore (c # cs) =
     (if c = CHR ''_'' then (if after_underscore then None else scan_digits acc True cs)
      else if is_digit c then scan_digits (10 * acc + int (code c - 48)) False cs
      else if after_underscore then None
      else Some (acc, c # cs))"

definition int_of_bytes :: "string \<Rightarrow> exc + int" where
  "int_of_bytes s =
     (let s1 = dropWhile bytes_isspace s;
          negative = (s1 \<noteq> [] \<and> hd s1 = CHR ''-'');
          s2 = (if s1 \<noteq> [] \<and> (hd s1 = CHR ''+'' \<or> hd s1 = CHR ''-'') then tl s1 else s1)
      in if s2 = [] \<or> \<not> is_digit (hd s2) then Inl ValueError
         else (case scan_digits 0 False s2 of
                 None \<Rightarrow> Inl ValueError
               | Some (n, rest) \<Rightarrow>
                   if dropWhile bytes_isspace rest = [] then Inr (if negative then - n else n)
                   else Inl ValueError))"

subsection \<open>parse_authorization_header\<close>

text \<open>
  \<open>Authorization('session', {'username': ..., 'userid': ..., 'session': ...})\<close>.
\<close>

record authorization =
  auth_type :: string
  username :: string
  userid :: int
  session :: string

text \<open>The body of the inner \<open>try\<close>: decode, split at the colons, convert the user id.\<close>

definition session_fields :: "string \<Rightarrow> exc + string \<times> int \<times> string" where
  "session_fields auth_info =
     (case b64decode auth_info of
        Inl e \<Rightarrow> Inl e
      | Inr payload \<Rightarrow>
          (case unpack3 (split_sep CHR '':'' 3 payload) of
             Inl e \<Rightarrow> Inl e
           | Inr (username', userid', session') \<Rightarrow>
               (case int_of_bytes userid' of
                  Inl e \<Rightarrow> Inl e
                | Inr n \<Rightarrow> Inr (username', n, session'))))"

text \<open>
  \<open>parse_authorization_header(value)\<close>; \<open>value\<close> is \<open>None\<close>, a \<open>str\<close> or
  \<open>bytes\<close>. The result \<open>Inr None\<close> is the bare \<open>return\<close>, also at the end of
  the function when the type is not \<open>session\<close>.
\<close>

definition parse_authorization_header :: "string option \<Rightarrow> exc + authorization option" where
  "parse_authorization_header value =
     (case value of
        None \<Rightarrow> Inr None
      | Some v \<Rightarrow>
          if v = [] then Inr None
          else
            (case unpack2 (split_whitespace bytes_isspace 1 v) of
               Inl e \<Rightarrow> if is_ValueError e then Inr None else Inl e
             | Inr (auth_type', auth_info) \<Rightarrow>
                 if bytes_lower auth_type' = ''session'' then
                   (case session_fields auth_info of
                      Inl e \<Rightarrow> if is_Exception e then Inr None else Inl e
                    | Inr (username', userid', session') \<Rightarrow>
                        Inr (Some \<lparr>auth_type = ''session'', username = username',
                                   userid = userid', session = session'\<rparr>))
                 else Inr None))"

subsection \<open>with_pool\<close>

text \<open>The truth value of \<open>request.rpc_method\<close>: \<open>None\<close> and the empty string are
  false.\<close>

definition is_rpc :: "request \<Rightarrow> bool" where
  "is_rpc request = (case rpc_method request of None \<Rightarrow> False | Some m \<Rightarrow> m \<noteq> [])"

text \<open>
  \<open>with_pool(func)(request, database_name)\<close>; \<open>database_list\<close> is the value of
  \<open>Pool.database_list()\<close> and \<open>func\<close> the outcome of the one call
  \<open>func(request, pool)\<close>.
\<close>

definition with_pool :: "(exc + 'r) \<Rightarrow> string list \<Rightarrow> request \<Rightarrow> string \<Rightarrow>
    event list \<times> (exc + 'r)" where
  "with_pool func database_list request database_name' =
     (let init = (if database_name' \<notin> set database_list
                  then [Start database_name' (Some 0) True [], PoolInit database_name', Exit False]
                  else [])
      in case func of
           Inr result \<Rightarrow> (init @ [Call], Inr result)
         | Inl e \<Rightarrow>
             if is_HTTPException e then (init @ [Call, LogDebug], Inl e)
             else if is_UserError_or_UserWarning e then
               (init @ [Call, LogDebug],
                if is_rpc request then Inl e else abort BAD_REQUEST (Some e))
             else if is_Exception e then
               (init @ [Call, LogError],
                if is_rpc request then Inl e else abort INTERNAL_SERVER_ERROR (Some e))
             else (init @ [Call], Inl e))"

subsection \<open>user_application\<close>

text \<open>
  What the handler returns: a \<open>Response\<close> (body and content type) or any other value.
\<close>

datatype 'v response = Response string string | Value 'v

record application =
  app_user :: int

text \<open>\<open>request.headers[name]\<close>: a missing header raises \<open>KeyError\<close>.\<close>

definition headers_getitem :: "request \<Rightarrow> string \<Rightarrow> exc + string" where
  "headers_getitem request name =
     (case map_of (headers request) name of None \<Rightarrow> Inl (KeyError name) | Some v \<Rightarrow> Inr v)"

text \<open>
  \<open>user_application(name, json)(func)(request)\<close>. \<open>check key name\<close> is the result of
  \<open>UserApplication.check(key, name)\<close>, an application record or \<open>None\<close>;
  \<open>dumps\<close> is \<open>json.dumps\<close> with the JSON encoder; \<open>func\<close> is the outcome of the
  one call of the handler.
\<close>

definition user_application :: "string \<Rightarrow> bool \<Rightarrow> (string \<Rightarrow> string \<Rightarrow> application option) \<Rightarrow>
    ('v \<Rightarrow> string) \<Rightarrow> (exc + 'v response) \<Rightarrow> request \<Rightarrow> event list \<times> (exc + 'v response)" where
  "user_application name json check dumps func request =
     (let get = [PoolGet ''res.user.application'']
      in case headers_getitem request ''Authorization'' of
           Inl e \<Rightarrow> (get, Inl e)
         | Inr authorization \<Rightarrow>
             (case unpack2 (split_whitespace str_isspace 1 authorization) of
                Inl e \<Rightarrow> (get, if is_ValueError e then abort UNAUTHORIZED None else Inl e)
              | Inr (auth_type', auth_info) \<Rightarrow>
                  if str_lower auth_type' \<noteq> ''bearer'' then (get, abort FORBIDDEN None)
                  else
                    (case check auth_info name of
                       None \<Rightarrow> (get @ [CheckApplication auth_info name], abort FORBIDDEN None)
                     | Some application \<Rightarrow>
                         (get @ [CheckApplication auth_info name,
                                 SetUser (app_user application), CheckAccess, Call, Restore],
                          case func of
                            Inl e \<Rightarrow> Inl e
                          | Inr (Response body content_type) \<Rightarrow> Inr (Response body content_type)
                          | Inr (Value v) \<Rightarrow>
                              if json then Inr (Response (dumps v) ''application/json'')
                              else Inr (Value v)))))"


subsection \<open>Example inputs\<close>

definition example_context :: request_context where
  "example_context =
     \<lparr>remote_addr = ''127.0.0.1'', http_host = Some ''localhost'', scheme = ''http'',
      is_secure = False\<rparr>"

definition post_request :: request where
  "post_request =
     \<lparr>http_method = ''POST'', headers = [], rpc_method = None, user_id = Inr None,
      req_context = example_context\<rparr>"

definition get_request :: request where
  "get_request =
     \<lparr>http_method = ''GET'', headers = [], rpc_method = None, user_id = Inr None,
      req_context = example_context\<rparr>"

definition example_pool :: pool where
  "example_pool = \<lparr>database_name = ''test''\<rparr>"

definition example_ctx :: ctx where
  "example_ctx = [(''_request'', CtxRequest example_context)]"

definition always_locked :: "string handler" where
  "always_locked k = Inl (DatabaseOperationalError ''locked'')"

definition locked_once :: "string handler" where
  "locked_once k =
     (if k = 0 then Inl (DatabaseOperationalError ''locked'') else Inr (''ok'', [1, 2, 3]))"

definition locked_then_broken :: "string handler" where
  "locked_then_broken k =
     (if k = 0 then Inl (DatabaseOperationalError ''locked'') else Inl (OtherException ''boom''))"

definition basic_request :: request where
  "basic_request =
     \<lparr>http_method = ''GET'', headers = [(''Authorization'', ''Basic dXNlcjpwdw=='')],
      rpc_method = None, user_id = Inr None, req_context = example_context\<rparr>"

definition bearer_request :: request where
  "bearer_request =
     \<lparr>http_method = ''GET'', headers = [(''Authorization'', ''Bearer unknown'')],
      rpc_method = None, user_id = Inr None, req_context = example_context\<rparr>"

definition rpc_request :: request where
  "rpc_request =
     \<lparr>http_method = ''POST'', headers = [], rpc_method = Some ''model.party.party.read'',
      user_id = Inr None, req_context = example_context\<rparr>"

definition no_application :: "string \<Rightarrow> string \<Rightarrow> application option" where
  "no_application key name = None"

definition returns_ok :: "exc + string response" where
  "returns_ok = Inr (Value ''ok'')"

section \<open>Properties of with_transaction\<close>

subsection \<open>The loop, one iteration at a time\<close>

lemma drain_tasks_rev: "drain_tasks db tasks = map (RunTask db) (rev tasks)"
proof (induction tasks rule: rev_induct)
  case Nil
  show ?case by (simp add: drain_tasks.simps)
next
  case (snoc t ts)
  have "drain_tasks db (ts @ [t]) = RunTask db t # drain_tasks db ts"
    by (subst drain_tasks.simps) simp
  with snoc show ?case by simp
qed

lemma calls_append [simp]: "calls (xs @ ys) = calls xs + calls ys"
  by (simp add: calls_def)

lemma calls_Cons [simp]: "calls (e # xs) = (if e = Call then 1 else 0) + calls xs"
  by (simp add: calls_def)

lemma calls_Nil [simp]: "calls [] = 0"
  by (simp add: calls_def)

lemma calls_drain [simp]: "calls (drain_tasks db tasks) = 0"
  by (simp add: drain_tasks_rev calls_def filter_empty_conv)

lemma calls_RunTask [simp]: "calls (map (RunTask db) ts) = 0"
  by (simp add: calls_def filter_empty_conv)

lemma calls_backoff [simp]: "calls (backoff retry count) = 0"
  by (simp add: backoff_def)

lemma range_down_step: "stop < start \<Longrightarrow> range_down start stop = start # range_down (start - 1) stop"
  by (subst range_down.simps) simp

lemma range_down_empty: "start \<le> stop \<Longrightarrow> range_down start stop = []"
  by (subst range_down.simps) simp

lemma attempts_retry:
  assumes "func k = Inl e" "is_DatabaseOperationalError e" "count \<noteq> 0" "\<not> ro"
  shows "attempts retry db u ro cx func k (count # rest) =
     (backoff retry count @ [Start db u ro cx, Call, Rollback, Exit False]
        @ fst (attempts retry db u ro cx func (Suc k) rest),
      snd (attempts retry db u ro cx func (Suc k) rest))"
  using assms by (simp add: Let_def split: prod.splits)

lemma attempts_raise:
  assumes "func k = Inl e" "\<not> is_DatabaseOperationalError e \<or> count = 0 \<or> ro"
  shows "attempts retry db u ro cx func k (count # rest) =
     (backoff retry count @ [Start db u ro cx, Call, Exit True], Inl e)"
  using assms by (auto simp add: Let_def)

lemma attempts_return:
  assumes "func k = Inr (r, ts)"
  shows "attempts retry db u ro cx func k (count # rest) =
     (backoff retry count @ [Start db u ro cx, Call, Commit, Exit False]
        @ map (RunTask db) (rev ts), Inr (Some r))"
  using assms by (simp add: Let_def drain_tasks_rev)

declare attempts.simps(2) [simp del]

lemma attempts_all_transient:
  assumes fail: "\<forall>j. func j = Inl (DatabaseOperationalError (msg j))"
  shows "0 \<le> c \<Longrightarrow> n = nat c \<Longrightarrow>
     calls (fst (attempts retry db u False cx func k (range_down c (- 1)))) = n + 1
   \<and> snd (attempts retry db u False cx func k (range_down c (- 1)))
       = Inl (DatabaseOperationalError (msg (k + n)))"
proof (induction n arbitrary: c k)
  case 0
  then have c: "c = 0" by simp
  have r: "range_down 0 (- 1) = [0]"
    by (simp add: range_down_step range_down_empty)
  have f: "func k = Inl (DatabaseOperationalError (msg k))" using fail by blast
  show ?case unfolding c r by (simp add: attempts_raise [where func=func and k=k, OF f])
next
  case (Suc n)
  then have c: "0 < c" "0 \<le> c - 1" "n = nat (c - 1)" by simp_all
  have r: "range_down c (- 1) = c # range_down (c - 1) (- 1)"
    using c by (simp add: range_down_step)
  have f: "func k = Inl (DatabaseOperationalError (msg k))" using fail by blast
  have ne: "c \<noteq> 0" using c by simp
  from Suc.IH [OF c(2) c(3), of "Suc k"]
  show ?case unfolding r by (simp add: attempts_retry [where func=func and k=k, OF f _ ne])
qed


lemma set_backoff: "e \<in> set (backoff retry count) \<Longrightarrow> is_Sleep e"
  by (auto simp: backoff_def split: if_splits)

lemma backoff_no_Commit [simp]: "Commit \<notin> set (backoff retry count)"
  using set_backoff [of Commit] by auto

lemma backoff_no_RunTask [simp]: "e \<in> set (backoff retry count) \<Longrightarrow> \<not> is_RunTask e"
  by (auto simp: backoff_def split: if_splits)

lemma attempts_non_transient:
  assumes "func k = Inl e" "\<not> is_DatabaseOperationalError e"
  shows "k0 \<le> k \<Longrightarrow> k < k0 + calls (fst (attempts retry db u ro cx func k0 cs)) \<Longrightarrow>
     snd (attempts retry db u ro cx func k0 cs) = Inl e
   \<and> k0 + calls (fst (attempts retry db u ro cx func k0 cs)) = Suc k
   \<and> Commit \<notin> set (fst (attempts retry db u ro cx func k0 cs))
   \<and> (\<forall>ev \<in> set (fst (attempts retry db u ro cx func k0 cs)). \<not> is_RunTask ev)"
proof (induction cs arbitrary: k0)
  case Nil
  then show ?case by simp
next
  case (Cons count rest)
  show ?case
  proof (cases "func k0")
    case (Inr p)
    obtain r ts where p: "p = (r, ts)" by (cases p)
    have eq: "func k0 = Inr (r, ts)" using Inr p by simp
    from Cons.prems have "k = k0"
      by (simp add: attempts_return [where func=func and k=k0, OF eq])
    with eq assms show ?thesis by simp
  next
    case (Inl e0)
    show ?thesis
    proof (cases "is_DatabaseOperationalError e0 \<and> count \<noteq> 0 \<and> \<not> ro")
      case True
      then have t: "is_DatabaseOperationalError e0" "count \<noteq> 0" "\<not> ro" by simp_all
      note step = attempts_retry [where func=func and k=k0, OF Inl t]
      have "k \<noteq> k0" using Inl assms t(1) by auto
      with Cons.prems have le: "Suc k0 \<le> k"
        and lt: "k < Suc k0 + calls (fst (attempts retry db u ro cx func (Suc k0) rest))"
        by (simp_all add: step)
      from Cons.IH [OF le lt] show ?thesis
        by (auto simp add: step dest: backoff_no_RunTask)
    next
      case False
      then have f: "\<not> is_DatabaseOperationalError e0 \<or> count = 0 \<or> ro" by simp
      note step = attempts_raise [where func=func and k=k0, OF Inl f]
      from Cons.prems have "k = k0" by (simp add: step)
      with Inl assms show ?thesis
        by (auto simp add: step dest: backoff_no_RunTask)
    qed
  qed
qed

lemma filter_backoff [simp]:
  "filter (\<lambda>e. is_Sleep e \<or> is_Start e) (backoff retry count) = backoff retry count"
  by (simp add: backoff_def)

lemma attempts_sleeps:
  "filter (\<lambda>e. is_Sleep e \<or> is_Start e) (fst (attempts retry db u ro cx func k cs))
   = concat (map (\<lambda>count. backoff retry count @ [Start db u ro cx])
       (take (calls (fst (attempts retry db u ro cx func k cs))) cs))"
proof (induction cs arbitrary: k)
  case Nil
  show ?case by simp
next
  case (Cons count rest)
  show ?case
  proof (cases "func k")
    case (Inr p)
    obtain r ts where eq: "func k = Inr (r, ts)" using Inr by (cases p) simp
    show ?thesis
      by (simp add: attempts_return [where func=func and k=k, OF eq] filter_empty_conv)
  next
    case (Inl e0)
    show ?thesis
    proof (cases "is_DatabaseOperationalError e0 \<and> count \<noteq> 0 \<and> \<not> ro")
      case True
      then have t: "is_DatabaseOperationalError e0" "count \<noteq> 0" "\<not> ro" by simp_all
      note step = attempts_retry [where func=func and k=k, OF Inl t]
      show ?thesis using Cons.IH [of "Suc k"] by (simp add: step)
    next
      case False
      then have f: "\<not> is_DatabaseOperationalError e0 \<or> count = 0 \<or> ro" by simp
      note step = attempts_raise [where func=func and k=k, OF Inl f]
      show ?thesis by (simp add: step)
    qed
  qed
qed

lemma attempts_success_after:
  assumes ok: "func k = Inr (r, ts)"
  shows "n = k - k0 \<Longrightarrow> k0 \<le> k \<Longrightarrow> int n \<le> c \<Longrightarrow> (0 < n \<longrightarrow> \<not> ro) \<Longrightarrow>
     (\<forall>j. k0 \<le> j \<and> j < k \<longrightarrow> (\<exists>m. func j = Inl (DatabaseOperationalError m))) \<Longrightarrow>
     \<exists>pre. attempts retry db u ro cx func k0 (range_down c (- 1))
            = (pre @ [Commit, Exit False] @ map (RunTask db) (rev ts), Inr (Some r))
         \<and> calls pre = Suc n
         \<and> Commit \<notin> set pre \<and> (\<forall>ev \<in> set pre. \<not> is_RunTask ev)"
proof (induction n arbitrary: k0 c)
  case 0
  then have k: "k0 = k" and c: "- 1 < c" by simp_all
  have r: "range_down c (- 1) = c # range_down (c - 1) (- 1)"
    using c by (rule range_down_step)
  let ?pre = "backoff retry c @ [Start db u ro cx, Call]"
  have "attempts retry db u ro cx func k0 (range_down c (- 1))
      = (?pre @ [Commit, Exit False] @ map (RunTask db) (rev ts), Inr (Some r))"
    unfolding r k by (simp add: attempts_return [where func=func and k=k, OF ok])
  moreover have "calls ?pre = Suc 0" by simp
  moreover have "Commit \<notin> set ?pre" by simp
  moreover have "\<forall>ev \<in> set ?pre. \<not> is_RunTask ev" by (auto dest: backoff_no_RunTask)
  ultimately show ?case by blast
next
  case (Suc n)
  then have lt: "k0 < k" and c: "0 < c" and ro: "\<not> ro" by simp_all
  have r: "range_down c (- 1) = c # range_down (c - 1) (- 1)"
    using c by (simp add: range_down_step)
  from Suc.prems(5) lt obtain m where f: "func k0 = Inl (DatabaseOperationalError m)"
    by blast
  have ne: "c \<noteq> 0" using c by simp
  note step = attempts_retry [where func=func and k=k0 and count=c, OF f _ ne ro, simplified]
  have "\<exists>pre. attempts retry db u ro cx func (Suc k0) (range_down (c - 1) (- 1))
            = (pre @ [Commit, Exit False] @ map (RunTask db) (rev ts), Inr (Some r))
         \<and> calls pre = Suc n
         \<and> Commit \<notin> set pre \<and> (\<forall>ev \<in> set pre. \<not> is_RunTask ev)"
    using Suc.prems by (intro Suc.IH) auto
  then obtain pre where pre:
    "attempts retry db u ro cx func (Suc k0) (range_down (c - 1) (- 1))
       = (pre @ [Commit, Exit False] @ map (RunTask db) (rev ts), Inr (Some r))"
    "calls pre = Suc n" "Commit \<notin> set pre" "\<forall>ev \<in> set pre. \<not> is_RunTask ev"
    by blast
  let ?pre = "backoff retry c @ [Start db u ro cx, Call, Rollback, Exit False] @ pre"
  have "attempts retry db u ro cx func k0 (range_down c (- 1))
      = (?pre @ [Commit, Exit False] @ map (RunTask db) (rev ts), Inr (Some r))"
    unfolding r by (simp add: step pre(1))
  moreover have "calls ?pre = Suc (Suc n)" using pre(2) by simp
  moreover have "Commit \<notin> set ?pre" using pre(3) by simp
  moreover have "\<forall>ev \<in> set ?pre. \<not> is_RunTask ev"
    using pre(4) by (auto dest: backoff_no_RunTask)
  ultimately show ?case by blast
qed

subsection \<open>Some runs\<close>

lemma range_down_nonneg: "0 \<le> retry \<Longrightarrow> range_down retry (- 1) = retry # range_down (retry - 1) (- 1)"
  by (simp add: range_down_step)

lemma range_down_2: "range_down 2 (- 1) = [2, 1, 0]"
  by (simp add: range_down_step range_down_empty)

lemma always_locked_run:
  "with_transaction None (UserValue 0) None 2 always_locked post_request example_pool
   = ([Start ''test'' (Some 0) False example_ctx, Call, Rollback, Exit False,
       Sleep 0.02, Start ''test'' (Some 0) False example_ctx, Call, Rollback, Exit False,
       Sleep 0.04, Start ''test'' (Some 0) False example_ctx, Call, Exit True],
      Inl (DatabaseOperationalError ''locked''))"
  by (simp add: with_transaction_def Let_def range_down_2 attempts.simps(2) backoff_def always_locked_def
      resolve_user_def resolve_readonly_def resolve_context_def post_request_def
      mutating_methods_def example_pool_def example_ctx_def)

lemma locked_then_broken_run:
  "with_transaction None (UserValue 0) None 2 locked_then_broken post_request example_pool
   = ([Start ''test'' (Some 0) False example_ctx, Call, Rollback, Exit False,
       Sleep 0.02, Start ''test'' (Some 0) False example_ctx, Call, Exit True],
      Inl (OtherException ''boom''))"
  by (simp add: with_transaction_def Let_def range_down_2 attempts.simps(2) backoff_def locked_then_broken_def
      resolve_user_def resolve_readonly_def resolve_context_def post_request_def
      mutating_methods_def example_pool_def example_ctx_def)

subsection \<open>Retry, backoff and deferred tasks\<close>

text \<open>
  Claim C1. For every retry count \<open>retry \<ge> 0\<close>: when every invocation of the handler
  raises a database operational error and the transaction is not read-only, the handler
  is invoked exactly \<open>retry + 1\<close> times, and the wrapper raises the error of the last
  invocation, as it is.
\<close>

theorem with_transaction_retries_then_propagates:
  assumes "0 \<le> retry"
    and "\<forall>k. func k = Inl (DatabaseOperationalError (msg k))"
    and "resolve_readonly readonly request = False"
    and "resolve_user user request = Inr u"
  shows "calls (fst (with_transaction readonly user context0 retry func request pool)) = nat retry + 1
       \<and> snd (with_transaction readonly user context0 retry func request pool)
           = Inl (DatabaseOperationalError (msg (nat retry)))"
  using attempts_all_transient [OF assms(2) assms(1) refl, where k=0] assms(3,4)
  by (simp add: with_transaction_def)

theorem with_transaction_retries_then_propagates_witness:
  "calls (fst (with_transaction None (UserValue 0) None 2 always_locked post_request example_pool)) = 3
   \<and> snd (with_transaction None (UserValue 0) None 2 always_locked post_request example_pool)
       = Inl (DatabaseOperationalError ''locked'')"
proof -
  have h1: "(0::int) \<le> 2" by simp
  have h2: "\<forall>k. always_locked k = Inl (DatabaseOperationalError ((\<lambda>k. ''locked'') k))"
    by (simp add: always_locked_def)
  have h3: "resolve_readonly None post_request = False"
    by (simp add: resolve_readonly_def post_request_def mutating_methods_def)
  have h4: "resolve_user (UserValue 0) post_request = Inr (Some 0)"
    by (simp add: resolve_user_def)
  show ?thesis
    using with_transaction_retries_then_propagates [where func=always_locked, OF h1 h2 h3 h4, of None example_pool]
    by simp
qed

text \<open>
  Claim C2. For every retry count \<open>retry \<ge> 0\<close>: when the transaction is read-only
  and the handler raises a database operational error, the whole run is one transaction
  start, one invocation of the handler and the end of the \<open>with\<close> block with the
  error in flight: no rollback, no sleep, no second attempt; the error is raised as it is.
\<close>

theorem with_transaction_readonly_no_retry:
  assumes "0 \<le> retry"
    and "func 0 = Inl (DatabaseOperationalError m)"
    and "resolve_readonly readonly request = True"
    and "resolve_user user request = Inr u"
  shows "with_transaction readonly user context0 retry func request pool
     = ([Start (database_name pool) u True (resolve_context context0 request), Call, Exit True],
        Inl (DatabaseOperationalError m))"
  using assms
  by (simp add: with_transaction_def range_down_nonneg backoff_def
      attempts_raise [where func=func and k=0, OF assms(2)])

theorem with_transaction_readonly_no_retry_witness:
  "with_transaction None (UserValue 0) None 5 always_locked get_request example_pool
     = ([Start ''test'' (Some 0) True example_ctx, Call, Exit True],
        Inl (DatabaseOperationalError ''locked''))"
proof -
  have h1: "(0::int) \<le> 5" by simp
  have h2: "always_locked 0 = Inl (DatabaseOperationalError ''locked'')"
    by (simp add: always_locked_def)
  have h3: "resolve_readonly None get_request = True"
    by (simp add: resolve_readonly_def get_request_def mutating_methods_def)
  have h4: "resolve_user (UserValue 0) get_request = Inr (Some 0)"
    by (simp add: resolve_user_def)
  show ?thesis
    using with_transaction_readonly_no_retry [where func=always_locked, OF h1 h2 h3 h4, of None example_pool]
    by (simp add: example_pool_def resolve_context_def get_request_def example_ctx_def)
qed

text \<open>
  Claim C3. Keeping only the sleeps and the transaction starts of a run: the attempts made
  use the first counters of \<open>range(retry, -1, -1)\<close>, in order; the attempt with counter
  \<open>count\<close> is preceded by one sleep of \<open>0.02 * (retry - count)\<close> seconds when
  \<open>count \<noteq> retry\<close>, and by no sleep when \<open>count = retry\<close>, which is the first
  attempt; there is no other sleep. The product is taken in the real numbers.
\<close>

theorem with_transaction_backoff:
  assumes "resolve_user user request = Inr u"
  shows "filter (\<lambda>e. is_Sleep e \<or> is_Start e)
       (fst (with_transaction readonly user context0 retry func request pool))
     = concat (map (\<lambda>count.
           (if count \<noteq> retry then [Sleep (0.02 * real_of_int (retry - count))] else [])
           @ [Start (database_name pool) u (resolve_readonly readonly request)
                (resolve_context context0 request)])
         (take (calls (fst (with_transaction readonly user context0 retry func request pool)))
            (range_down retry (- 1))))"
  using assms attempts_sleeps [of retry "database_name pool" u "resolve_readonly readonly request"
      "resolve_context context0 request" func 0 "range_down retry (- 1)"]
  by (simp add: with_transaction_def backoff_def)

theorem with_transaction_backoff_witness:
  "filter (\<lambda>e. is_Sleep e \<or> is_Start e)
       (fst (with_transaction None (UserValue 0) None 2 always_locked post_request example_pool))
     = [Start ''test'' (Some 0) False example_ctx,
        Sleep (0.02 * real_of_int (2 - 1)), Start ''test'' (Some 0) False example_ctx,
        Sleep (0.02 * real_of_int (2 - 0)), Start ''test'' (Some 0) False example_ctx]"
proof -
  have h: "resolve_user (UserValue 0) post_request = Inr (Some 0)"
    by (simp add: resolve_user_def)
  have c: "calls (fst (with_transaction None (UserValue 0) None 2 always_locked post_request
      example_pool)) = 3"
    by (simp add: always_locked_run)
  have t: "take 3 (range_down 2 (- 1)) = [2, 1, 0]"
    by (simp add: range_down_2)
  have r: "resolve_readonly None post_request = False"
    by (simp add: resolve_readonly_def post_request_def mutating_methods_def)
  have x: "resolve_context None post_request = example_ctx"
    by (simp add: resolve_context_def post_request_def example_ctx_def)
  show ?thesis
    using with_transaction_backoff [OF h, of None None 2 always_locked example_pool]
    unfolding c t r x by (simp add: example_pool_def)
qed

text \<open>
  Claim C4. When invocation \<open>k\<close> of the handler returns, after \<open>k\<close> invocations that
  were retried, having appended the task ids \<open>ts\<close> to the transaction: the run ends with
  the commit, the end of the \<open>with\<close> block, and then one \<open>run_task\<close> for each
  element of \<open>ts\<close>, in reverse order; nothing before that commit is a commit or a
  \<open>run_task\<close>; and the wrapper returns the handler's result.
\<close>

theorem with_transaction_tasks_after_commit:
  assumes "resolve_user user request = Inr u"
    and "func k = Inr (r, ts)"
    and "\<forall>j<k. \<exists>m. func j = Inl (DatabaseOperationalError m)"
    and "int k \<le> retry"
    and "0 < k \<longrightarrow> \<not> resolve_readonly readonly request"
  shows "\<exists>pre. with_transaction readonly user context0 retry func request pool
            = (pre @ [Commit, Exit False] @ map (RunTask (database_name pool)) (rev ts),
               Inr (Some r))
          \<and> Commit \<notin> set pre \<and> (\<forall>ev \<in> set pre. \<not> is_RunTask ev)"
proof -
  have "\<exists>pre. attempts retry (database_name pool) u (resolve_readonly readonly request)
              (resolve_context context0 request) func 0 (range_down retry (- 1))
            = (pre @ [Commit, Exit False] @ map (RunTask (database_name pool)) (rev ts),
               Inr (Some r))
         \<and> calls pre = Suc k
         \<and> Commit \<notin> set pre \<and> (\<forall>ev \<in> set pre. \<not> is_RunTask ev)"
    using assms(3,4,5) by (intro attempts_success_after [where func=func and k=k, OF assms(2)]) auto
  then show ?thesis using assms(1) by (auto simp add: with_transaction_def)
qed

theorem with_transaction_tasks_after_commit_witness:
  "\<exists>pre. with_transaction None (UserValue 0) None 2 locked_once post_request example_pool
            = (pre @ [Commit, Exit False] @ [RunTask ''test'' 3, RunTask ''test'' 2, RunTask ''test'' 1],
               Inr (Some ''ok''))
          \<and> Commit \<notin> set pre \<and> filter is_RunTask pre = []"
proof -
  have h1: "resolve_user (UserValue 0) post_request = Inr (Some 0)"
    by (simp add: resolve_user_def)
  have h2: "locked_once 1 = Inr (''ok'', [1, 2, 3])"
    by (simp add: locked_once_def)
  have h3: "\<forall>j<1. \<exists>m. locked_once j = Inl (DatabaseOperationalError m)"
    by (simp add: locked_once_def)
  have h4: "int 1 \<le> 2" by simp
  have h5: "0 < (1::nat) \<longrightarrow> \<not> resolve_readonly None post_request"
    by (simp add: resolve_readonly_def post_request_def mutating_methods_def)
  show ?thesis
    using with_transaction_tasks_after_commit [where func=locked_once and k=1,
        OF h1 h2 h3 h4 h5, of None example_pool]
    by (simp add: example_pool_def filter_empty_conv)
qed

text \<open>
  Claim C5. When an invocation of the handler that took place (number \<open>k\<close>, below the
  number of invocations of the run) raised an exception that is not a database
  operational error: the wrapper raises that exception, that invocation was the last
  one, and the run contains no commit and no \<open>run_task\<close>.
\<close>

theorem with_transaction_other_error:
  assumes "k < calls (fst (with_transaction readonly user context0 retry func request pool))"
    and "func k = Inl e"
    and "\<not> is_DatabaseOperationalError e"
  shows "snd (with_transaction readonly user context0 retry func request pool) = Inl e
       \<and> calls (fst (with_transaction readonly user context0 retry func request pool)) = Suc k
       \<and> Commit \<notin> set (fst (with_transaction readonly user context0 retry func request pool))
       \<and> (\<forall>ev \<in> set (fst (with_transaction readonly user context0 retry func request pool)).
            \<not> is_RunTask ev)"
proof (cases "resolve_user user request")
  case (Inl e')
  with assms(1) show ?thesis by (simp add: with_transaction_def)
next
  case (Inr u)
  with assms(1) attempts_non_transient [where func=func and k=k and ?k0.0=0 and retry=retry
      and db="database_name pool" and u=u and ro="resolve_readonly readonly request"
      and cx="resolve_context context0 request" and cs="range_down retry (- 1)", OF assms(2,3)]
  show ?thesis by (simp add: with_transaction_def)
qed

theorem with_transaction_other_error_witness:
  "snd (with_transaction None (UserValue 0) None 2 locked_then_broken post_request example_pool)
     = Inl (OtherException ''boom'')
   \<and> calls (fst (with_transaction None (UserValue 0) None 2 locked_then_broken post_request
        example_pool)) = 2
   \<and> Commit \<notin> set (fst (with_transaction None (UserValue 0) None 2 locked_then_broken
        post_request example_pool))
   \<and> filter is_RunTask (fst (with_transaction None (UserValue 0) None 2 locked_then_broken
        post_request example_pool)) = []"
proof -
  have h1: "1 < calls (fst (with_transaction None (UserValue 0) None 2 locked_then_broken
      post_request example_pool))"
    by (simp add: locked_then_broken_run)
  have h2: "locked_then_broken 1 = Inl (OtherException ''boom'')"
    by (simp add: locked_then_broken_def)
  have h3: "\<not> is_DatabaseOperationalError (OtherException ''boom'')" by simp
  show ?thesis
    using with_transaction_other_error [where func=locked_then_broken and k=1, OF h1 h2 h3]
    by (simp add: filter_empty_conv)
qed

section \<open>Properties of parse_authorization_header\<close>

subsection \<open>What the two try blocks catch\<close>

lemma emit_Inl: "emit b r = Inl e \<Longrightarrow> r = Inl e"
  by (simp add: emit_def split: sum.splits)

lemma a2b_base64_error: "a2b_base64 quad_pos leftchar pads s = Inl e \<Longrightarrow> e = BinasciiError"
proof (induction s arbitrary: quad_pos leftchar pads)
  case Nil
  then show ?case by (simp split: if_splits)
next
  case (Cons c cs)
  then show ?case
    by (auto split: if_splits option.splits dest!: emit_Inl)
qed

lemma b64decode_error: "b64decode s = Inl e \<Longrightarrow> e = BinasciiError"
  unfolding b64decode_def by (rule a2b_base64_error)

lemma unpack2_error: "unpack2 xs = Inl e \<Longrightarrow> e = ValueError"
  by (auto simp: unpack2_def split: list.splits)

lemma unpack2_Inr: "unpack2 xs = Inr (a, b) \<longleftrightarrow> xs = [a, b]"
  by (auto simp: unpack2_def split: list.splits)

lemma unpack2_Inl: "unpack2 xs = Inl e \<Longrightarrow> xs \<noteq> [a, b]"
  by (auto simp: unpack2_def)

lemma unpack3_error: "unpack3 xs = Inl e \<Longrightarrow> e = ValueError"
  by (auto simp: unpack3_def split: list.splits)

lemma unpack3_Inr: "unpack3 xs = Inr (a, b, c) \<longleftrightarrow> xs = [a, b, c]"
  by (auto simp: unpack3_def split: list.splits)

lemma unpack3_length: "length xs \<noteq> 3 \<Longrightarrow> unpack3 xs = Inl ValueError"
  by (auto simp: unpack3_def split: list.splits)

lemma int_of_bytes_error: "int_of_bytes s = Inl e \<Longrightarrow> e = ValueError"
  by (auto simp: int_of_bytes_def Let_def split: if_splits option.splits)

lemma session_fields_error: "session_fields info = Inl e \<Longrightarrow> e = BinasciiError \<or> e = ValueError"
  by (auto simp: session_fields_def split: sum.splits
      dest: b64decode_error unpack3_error int_of_bytes_error)

lemma session_fields_is_Exception: "session_fields info = Inl e \<Longrightarrow> is_Exception e"
  by (auto dest: session_fields_error)

lemma parse_never_raises: "parse_authorization_header value \<noteq> Inl e"
  by (auto simp: parse_authorization_header_def split: option.splits sum.splits if_splits
      dest: unpack2_error session_fields_is_Exception)

lemma parse_session_failure:
  assumes "session_fields info = Inl e" "split_whitespace bytes_isspace 1 v = [ty, info]"
  shows "parse_authorization_header (Some v) = Inr None"
  using assms session_fields_is_Exception [OF assms(1)]
  by (auto simp: parse_authorization_header_def unpack2_def)

lemma parse_malformed:
  "length (split_whitespace bytes_isspace 1 v) \<noteq> 2 \<Longrightarrow>
   parse_authorization_header (Some v) = Inr None"
  by (auto simp add: parse_authorization_header_def unpack2_def split: list.splits
      simp del: split_whitespace.simps)

lemma session_fields_b64: "b64decode info = Inl e \<Longrightarrow> session_fields info = Inl e"
  by (simp add: session_fields_def)

lemma session_fields_split:
  "b64decode info = Inr p \<Longrightarrow> length (split_sep CHR '':'' 3 p) \<noteq> 3 \<Longrightarrow>
   session_fields info = Inl ValueError"
  by (simp add: session_fields_def unpack3_length)

lemma session_fields_int:
  "b64decode info = Inr p \<Longrightarrow> split_sep CHR '':'' 3 p = [name, u, sess] \<Longrightarrow>
   int_of_bytes u = Inl e \<Longrightarrow> session_fields info = Inl e"
  by (simp add: session_fields_def unpack3_def)

subsection \<open>Splitting at the colons\<close>

lemma count_list_takeWhile: "count_list (takeWhile (\<lambda>c. c \<noteq> sep) s) sep = 0"
  by (induction s) auto

lemma count_list_dropWhile:
  "count_list (dropWhile (\<lambda>c. c \<noteq> sep) s) sep = count_list s sep"
  by (induction s) auto

lemma dropWhile_sep: "sep \<in> set s \<Longrightarrow>
  dropWhile (\<lambda>c. c \<noteq> sep) s = sep # tl (dropWhile (\<lambda>c. c \<noteq> sep) s)"
  by (induction s) auto

lemma count_list_tl_dropWhile: "sep \<in> set s \<Longrightarrow>
  count_list s sep = Suc (count_list (tl (dropWhile (\<lambda>c. c \<noteq> sep) s)) sep)"
proof -
  assume a: "sep \<in> set s"
  have "count_list s sep = count_list (dropWhile (\<lambda>c. c \<noteq> sep) s) sep"
    by (simp add: count_list_dropWhile)
  also have "\<dots> = count_list (sep # tl (dropWhile (\<lambda>c. c \<noteq> sep) s)) sep"
    using dropWhile_sep [OF a] by simp
  finally show ?thesis by simp
qed

lemma count_list_0: "sep \<notin> set s \<Longrightarrow> count_list s sep = 0"
  by (induction s) auto

lemma length_split_sep: "length (split_sep sep n s) = min n (count_list s sep) + 1"
proof (induction n arbitrary: s)
  case 0
  show ?case by simp
next
  case (Suc n)
  show ?case
  proof (cases "sep \<in> set s")
    case True
    from count_list_tl_dropWhile [OF True] Suc.IH [of "tl (dropWhile (\<lambda>c. c \<noteq> sep) s)"] True
    show ?thesis by simp
  next
    case False
    then show ?thesis by (simp add: count_list_0)
  qed
qed

subsection \<open>Session credentials\<close>

text \<open>
  Claim C6. The header value \<open>session dXNlcjoxMjM6dG9rZW4=\<close> gives the session
  credential of user \<open>user\<close>, id 123, session \<open>token\<close>. \<open>None\<close> and the empty
  string give no credential. So does a value that does not split into a type and a
  payload, and a value whose payload fails to decode as base64, or decodes to something
  that does not split into three fields at the colons, or whose second field is not an
  integer. No value makes the function raise.
\<close>

theorem parse_authorization_header_session:
  "parse_authorization_header (Some ''session dXNlcjoxMjM6dG9rZW4='')
     = Inr (Some \<lparr>auth_type = ''session'', username = ''user'', userid = 123,
                  session = ''token''\<rparr>)
   \<and> parse_authorization_header None = Inr None
   \<and> parse_authorization_header (Some []) = Inr None
   \<and> (\<forall>v. length (split_whitespace bytes_isspace 1 v) \<noteq> 2
        \<longrightarrow> parse_authorization_header (Some v) = Inr None)
   \<and> (\<forall>v ty info. split_whitespace bytes_isspace 1 v = [ty, info] \<and>
         ((\<exists>e. b64decode info = Inl e)
          \<or> (\<exists>p. b64decode info = Inr p \<and> length (split_sep CHR '':'' 3 p) \<noteq> 3)
          \<or> (\<exists>p name u sess e. b64decode info = Inr p
                \<and> split_sep CHR '':'' 3 p = [name, u, sess] \<and> int_of_bytes u = Inl e))
        \<longrightarrow> parse_authorization_header (Some v) = Inr None)
   \<and> (\<forall>value e. parse_authorization_header value \<noteq> Inl e)"
proof (intro conjI allI impI)
  show "parse_authorization_header (Some ''session dXNlcjoxMjM6dG9rZW4='')
     = Inr (Some \<lparr>auth_type = ''session'', username = ''user'', userid = 123,
                  session = ''token''\<rparr>)"
    by code_simp
  show "parse_authorization_header None = Inr None"
    by (simp add: parse_authorization_header_def)
  show "parse_authorization_header (Some []) = Inr None"
    by (simp add: parse_authorization_header_def)
next
  fix v
  assume "length (split_whitespace bytes_isspace 1 v) \<noteq> 2"
  then show "parse_authorization_header (Some v) = Inr None"
    by (rule parse_malformed)
next
  fix v ty info
  assume a: "split_whitespace bytes_isspace 1 v = [ty, info] \<and>
         ((\<exists>e. b64decode info = Inl e)
          \<or> (\<exists>p. b64decode info = Inr p \<and> length (split_sep CHR '':'' 3 p) \<noteq> 3)
          \<or> (\<exists>p name u sess e. b64decode info = Inr p
                \<and> split_sep CHR '':'' 3 p = [name, u, sess] \<and> int_of_bytes u = Inl e))"
  then have "\<exists>e. session_fields info = Inl e"
    by (auto dest: session_fields_b64 session_fields_split session_fields_int)
  then obtain e where "session_fields info = Inl e" ..
  with a show "parse_authorization_header (Some v) = Inr None"
    by (auto intro: parse_session_failure)
next
  fix "value" e
  show "parse_authorization_header value \<noteq> Inl e"
    by (rule parse_never_raises)
qed

theorem parse_authorization_header_session_witness:
  "parse_authorization_header (Some ''session dXNlcjphYmM6dG9rZW4='') = Inr None
   \<and> parse_authorization_header (Some ''session dXNlcjoxMjM='') = Inr None
   \<and> parse_authorization_header (Some ''session dXNlcjoxMjM6dG9rZW4'') = Inr None
   \<and> parse_authorization_header (Some ''session'') = Inr None"
proof -
  note t = parse_authorization_header_session
  have w1: "split_whitespace bytes_isspace 1 ''session dXNlcjphYmM6dG9rZW4=''
      = [''session'', ''dXNlcjphYmM6dG9rZW4='']"
    by code_simp
  have d1: "b64decode ''dXNlcjphYmM6dG9rZW4='' = Inr ''user:abc:token''"
    by code_simp
  have s1: "split_sep CHR '':'' 3 ''user:abc:token'' = [''user'', ''abc'', ''token'']"
    by code_simp
  have i1: "int_of_bytes ''abc'' = Inl ValueError"
    by code_simp
  have w2: "split_whitespace bytes_isspace 1 ''session dXNlcjoxMjM=''
      = [''session'', ''dXNlcjoxMjM='']"
    by code_simp
  have d2: "b64decode ''dXNlcjoxMjM='' = Inr ''user:123''"
    by code_simp
  have s2: "length (split_sep CHR '':'' 3 ''user:123'') \<noteq> 3"
    by code_simp
  have w3: "split_whitespace bytes_isspace 1 ''session dXNlcjoxMjM6dG9rZW4''
      = [''session'', ''dXNlcjoxMjM6dG9rZW4'']"
    by code_simp
  have d3: "b64decode ''dXNlcjoxMjM6dG9rZW4'' = Inl BinasciiError"
    by code_simp
  have m: "length (split_whitespace bytes_isspace 1 ''session'') \<noteq> 2"
    by code_simp
  have "parse_authorization_header (Some ''session dXNlcjphYmM6dG9rZW4='') = Inr None"
    using t w1 d1 s1 i1 by blast
  moreover have "parse_authorization_header (Some ''session dXNlcjoxMjM='') = Inr None"
    using t w2 d2 s2 by blast
  moreover have "parse_authorization_header (Some ''session dXNlcjoxMjM6dG9rZW4'') = Inr None"
    using t w3 d3 by blast
  moreover have "parse_authorization_header (Some ''session'') = Inr None"
    using t m by blast
  ultimately show ?thesis by simp
qed

text \<open>
  Claim C10. A session header whose decoded payload contains three colons or more
  gives no credential: \<open>split(b':', 3)\<close> yields four fields, which do not unpack
  into three names, whatever the first two fields are.
\<close>

theorem parse_authorization_header_extra_colons:
  assumes "split_whitespace bytes_isspace 1 v = [ty, info]"
    and "bytes_lower ty = ''session''"
    and "b64decode info = Inr payload"
    and "3 \<le> count_list payload CHR '':''"
  shows "parse_authorization_header (Some v) = Inr None"
proof -
  have "length (split_sep CHR '':'' 3 payload) = 4"
    using assms(4) by (simp add: length_split_sep)
  then have "session_fields info = Inl ValueError"
    using assms(3) by (simp add: session_fields_split)
  then show ?thesis using assms(1) by (rule parse_session_failure)
qed

theorem parse_authorization_header_extra_colons_witness:
  "parse_authorization_header (Some ''session dXNlcjoxMjM6dG9rOmVu'') = Inr None"
proof -
  have w: "split_whitespace bytes_isspace 1 ''session dXNlcjoxMjM6dG9rOmVu''
      = [''session'', ''dXNlcjoxMjM6dG9rOmVu'']"
    by code_simp
  have l: "bytes_lower ''session'' = ''session''"
    by code_simp
  have d: "b64decode ''dXNlcjoxMjM6dG9rOmVu'' = Inr ''user:123:tok:en''"
    by code_simp
  have c: "3 \<le> count_list ''user:123:tok:en'' CHR '':''"
    by simp
  show ?thesis
    using parse_authorization_header_extra_colons [OF w l d c] .
qed

section \<open>Properties of user_application\<close>

lemma user_application_unauthorized:
  "headers_getitem request ''Authorization'' = Inr a \<Longrightarrow>
   length (split_whitespace str_isspace 1 a) \<noteq> 2 \<Longrightarrow>
   user_application name json check dumps func request
     = ([PoolGet ''res.user.application''], Inl (HTTPException 401 None))"
  by (auto simp add: user_application_def unpack2_def abort_def UNAUTHORIZED_def
      split: list.splits)

lemma user_application_runs_handler:
  "headers_getitem request ''Authorization'' = Inr a \<Longrightarrow>
   split_whitespace str_isspace 1 a = [ty, info] \<Longrightarrow> str_lower ty = ''bearer'' \<Longrightarrow>
   check info name = Some app \<Longrightarrow>
   fst (user_application name json check dumps func request)
     = [PoolGet ''res.user.application'', CheckApplication info name, SetUser (app_user app),
        CheckAccess, Call, Restore]"
  by (simp add: user_application_def unpack2_def)

lemma user_application_calls:
  "calls (fst (user_application name json check dumps func request))
     = (if \<exists>a ty info app. headers_getitem request ''Authorization'' = Inr a
             \<and> split_whitespace str_isspace 1 a = [ty, info] \<and> str_lower ty = ''bearer''
             \<and> check info name = Some app
        then 1 else 0)"
proof (cases "headers_getitem request ''Authorization''")
  case (Inl e)
  then show ?thesis by (simp add: user_application_def)
next
  case a: (Inr a)
  show ?thesis
  proof (cases "unpack2 (split_whitespace str_isspace 1 a)")
    case (Inl e)
    from unpack2_Inl [OF Inl] have "\<And>ty info. split_whitespace str_isspace 1 a \<noteq> [ty, info]" .
    with a Inl show ?thesis by (simp add: user_application_def del: split_whitespace.simps)
  next
    case (Inr p)
    obtain ty info where p: "p = (ty, info)" by (cases p)
    with Inr have sp: "split_whitespace str_isspace 1 a = [ty, info]"
      by (simp add: unpack2_Inr)
    show ?thesis
    proof (cases "str_lower ty = ''bearer''")
      case False
      with a Inr p sp show ?thesis
        by (simp add: user_application_def del: split_whitespace.simps)
    next
      case True
      with a Inr p sp show ?thesis
        by (cases "check info name")
          (simp_all add: user_application_def del: split_whitespace.simps)
    qed
  qed
qed

text \<open>
  Claim C7. The claim says that a request without \<open>Authorization\<close> header fails with
  401. The header is read by subscript before the \<open>try\<close> block whose handler aborts
  with 401, so for the request \<open>get_request\<close>, which has no header at all, the decorator
  raises the \<open>KeyError\<close> of the header mapping instead; the handler is not invoked.
\<close>

theorem user_application_missing_header:
  "user_application name json check dumps func get_request
     = ([PoolGet ''res.user.application''], Inl (KeyError ''Authorization''))"
  by (simp add: user_application_def headers_getitem_def get_request_def)

text \<open>
  Claim C8. When the header splits into a scheme and a remainder: a scheme other than
  \<open>bearer\<close>, compared in lower case, gives 403 with no call of
  \<open>UserApplication.check\<close> and no invocation of the handler; the scheme \<open>bearer\<close>
  with a token for which \<open>UserApplication.check\<close> returns nothing gives 403 after that
  one lookup, with no invocation of the handler.
\<close>

theorem user_application_forbidden:
  "(headers_getitem request ''Authorization'' = Inr a
      \<and> split_whitespace str_isspace 1 a = [ty, info] \<and> str_lower ty \<noteq> ''bearer''
    \<longrightarrow> user_application name json check dumps func request
          = ([PoolGet ''res.user.application''], Inl (HTTPException 403 None)))
   \<and> (headers_getitem request ''Authorization'' = Inr a
      \<and> split_whitespace str_isspace 1 a = [ty, info] \<and> str_lower ty = ''bearer''
      \<and> check info name = None
    \<longrightarrow> user_application name json check dumps func request
          = ([PoolGet ''res.user.application'', CheckApplication info name],
             Inl (HTTPException 403 None)))"
  by (simp add: user_application_def unpack2_def abort_def FORBIDDEN_def)

theorem user_application_forbidden_witness:
  "user_application ''timesheet'' True no_application id returns_ok basic_request
     = ([PoolGet ''res.user.application''], Inl (HTTPException 403 None))
   \<and> user_application ''timesheet'' True no_application id returns_ok bearer_request
     = ([PoolGet ''res.user.application'', CheckApplication ''unknown'' ''timesheet''],
        Inl (HTTPException 403 None))"
proof -
  have b1: "headers_getitem basic_request ''Authorization'' = Inr ''Basic dXNlcjpwdw==''"
    by (simp add: headers_getitem_def basic_request_def)
  have b2: "split_whitespace str_isspace 1 ''Basic dXNlcjpwdw=='' = [''Basic'', ''dXNlcjpwdw=='']"
    by code_simp
  have b3: "str_lower ''Basic'' \<noteq> ''bearer''"
    by code_simp
  have c1: "headers_getitem bearer_request ''Authorization'' = Inr ''Bearer unknown''"
    by (simp add: headers_getitem_def bearer_request_def)
  have c2: "split_whitespace str_isspace 1 ''Bearer unknown'' = [''Bearer'', ''unknown'']"
    by code_simp
  have c3: "str_lower ''Bearer'' = ''bearer''"
    by code_simp
  have c4: "no_application ''unknown'' ''timesheet'' = None"
    by (simp add: no_application_def)
  show ?thesis
    using user_application_forbidden [of basic_request "''Basic dXNlcjpwdw==''" "''Basic''"
        "''dXNlcjpwdw==''" "''timesheet''" True no_application id returns_ok]
      user_application_forbidden [of bearer_request "''Bearer unknown''" "''Bearer''"
        "''unknown''" "''timesheet''" True no_application id returns_ok]
      b1 b2 b3 c1 c2 c3 c4
    by simp
qed

section \<open>Properties of with_pool\<close>

lemma with_pool_returns: "snd (with_pool (Inr r) database_list request db) = Inr r"
  by (simp add: with_pool_def Let_def)

lemma with_pool_http: "is_HTTPException e \<Longrightarrow> snd (with_pool (Inl e) database_list request db) = Inl e"
  by (simp add: with_pool_def Let_def)

lemma with_pool_calls_once: "calls (fst (with_pool func database_list request db)) = 1"
  by (simp add: with_pool_def Let_def split: sum.splits)

text \<open>
  Claim C9, as stated, says that every exception of the wrapped function other than an
  \<open>HTTPException\<close>, \<open>UserError\<close> or \<open>UserWarning\<close> becomes a 500 for a request
  that is not an RPC call. The last clause is \<open>except Exception\<close>: an exception that
  does not derive from \<open>Exception\<close>, such as \<open>KeyboardInterrupt\<close>, is caught by no
  clause and leaves the wrapper as it is, also for a request that is not an RPC call.
\<close>

theorem with_pool_error_conversion_counterexample:
  "is_rpc get_request = False
   \<and> is_HTTPException (NonException ''KeyboardInterrupt'') = False
   \<and> is_UserError_or_UserWarning (NonException ''KeyboardInterrupt'') = False
   \<and> snd (with_pool (Inl (NonException ''KeyboardInterrupt'') :: exc + string) [''test'']
          get_request ''test'')
       = Inl (NonException ''KeyboardInterrupt'')"
  by (simp add: with_pool_def is_rpc_def get_request_def)

text \<open>
  Claim C9, amended. When the wrapped function raises \<open>UserError\<close> or
  \<open>UserWarning\<close>, the wrapper raises it unchanged for an RPC request and aborts with
  400 otherwise. When it raises any other instance of \<open>Exception\<close> that is not an
  \<open>HTTPException\<close>, the wrapper raises it unchanged for an RPC request and aborts
  with 500 otherwise. An exception that is not an instance of \<open>Exception\<close> is raised
  unchanged for every request.
\<close>

theorem with_pool_error_conversion:
  "(is_UserError_or_UserWarning e
    \<longrightarrow> snd (with_pool (Inl e) database_list request db)
          = (if is_rpc request then Inl e else Inl (HTTPException 400 (Some e))))
   \<and> (\<not> is_HTTPException e \<and> \<not> is_UserError_or_UserWarning e \<and> is_Exception e
    \<longrightarrow> snd (with_pool (Inl e) database_list request db)
          = (if is_rpc request then Inl e else Inl (HTTPException 500 (Some e))))
   \<and> (\<not> is_Exception e
    \<longrightarrow> snd (with_pool (Inl e) database_list request db) = Inl e)"
  by (cases e)
    (simp_all add: with_pool_def Let_def abort_def BAD_REQUEST_def INTERNAL_SERVER_ERROR_def)

theorem with_pool_error_conversion_witness:
  "snd (with_pool (Inl (UserError ''wrong'') :: exc + string) [''test''] get_request ''test'')
     = Inl (HTTPException 400 (Some (UserError ''wrong'')))
   \<and> snd (with_pool (Inl (UserWarning ''sure?'') :: exc + string) [''test''] rpc_request ''test'')
     = Inl (UserWarning ''sure?'')
   \<and> snd (with_pool (Inl (OtherException ''boom'') :: exc + string) [''test''] get_request ''test'')
     = Inl (HTTPException 500 (Some (OtherException ''boom'')))
   \<and> snd (with_pool (Inl (OtherException ''boom'') :: exc + string) [''test''] rpc_request ''test'')
     = Inl (OtherException ''boom'')
   \<and> snd (with_pool (Inl (NonException ''SystemExit'') :: exc + string) [''test''] get_request ''test'')
     = Inl (NonException ''SystemExit'')"
proof -
  have n: "\<not> is_rpc get_request" by (simp add: is_rpc_def get_request_def)
  have r: "is_rpc rpc_request" by (simp add: is_rpc_def rpc_request_def)
  show ?thesis
    using with_pool_error_conversion [of "UserError ''wrong''" "[''test'']" get_request "''test''"]
      with_pool_error_conversion [of "UserWarning ''sure?''" "[''test'']" rpc_request "''test''"]
      with_pool_error_conversion [of "OtherException ''boom''" "[''test'']" get_request "''test''"]
      with_pool_error_conversion [of "OtherException ''boom''" "[''test'']" rpc_request "''test''"]
      with_pool_error_conversion [of "NonException ''SystemExit''" "[''test'']" get_request "''test''"]
      n r
    by simp
qed

end
